theory Spec2Isabelle
  imports Complex_Main
begin

section \<open>JavaScript values, objects and the heap\<close>

text \<open>
  The repository's partial-update functions (\<open>riskyUpdateOrder\<close>, \<open>safeUpdateOrder\<close> in
  \<open>libs/ts-risks/src/spread-operator.spec.ts\<close>, \<open>riskyUpdateConfig\<close>, \<open>safeUpdateConfig\<close> in
  the second spread-operator file) work on JavaScript objects: they allocate objects, copy
  properties between them and share nested objects by reference. The model keeps that:
  objects live in a heap and are named by their address.

  A JavaScript number is a double; the functions only copy numbers and test whether they
  are truthy, so a number is \<open>NaN\<close> or a rational (both zeros are the rational 0).
  A string is a list of characters, one per code unit.
\<close>

type_synonym addr = nat

datatype number = NaN | Finite rat

datatype jsvalue =
    Undefined
  | Null
  | Boolean bool
  | Number number
  | String string
  | Ref addr

text \<open>
  The prototype of an object decides which methods it has and what \<open>instanceof\<close> says.
  Each of the two files declares its own class \<open>Order\<close>, and the prototype object of
  either class has \<open>Object.prototype\<close> as its own prototype; a plain object literal has
  \<open>Object.prototype\<close>. These three prototype objects hold functions only and are not objects
  of the heap. Writing the property \<open>__proto__\<close> can give an object another object of the
  heap as its prototype (\<open>Object_at\<close>), or none (\<open>No_prototype\<close>, the prototype \<open>null\<close>).
\<close>

datatype prototype =
    Object_prototype
  | Order_prototype
  | Order_prototype_part_001
  | Object_at addr
  | No_prototype

text \<open>
  An object is its prototype and its own enumerable data properties, in insertion order.
  Property names are unique in an object; \<open>wf_heap\<close> below states it.
\<close>

record object =
  proto :: prototype
  props :: "(string \<times> jsvalue) list"

type_synonym heap = "object list"

text \<open>
  \<open>TypeError\<close> is JavaScript's error for calling something that is not a function and for
  a prototype assignment that would close a cycle. The other two are raised by the model
  alone, on heaps that JavaScript never has: \<open>Dangling\<close> for an address outside the heap (a
  reference always denotes a live object, and the model says so instead of reading an
  unspecified list element), \<open>Cyclic\<close> for a prototype chain longer than the heap.
\<close>

datatype error = TypeError | Dangling | Cyclic

definition andThen :: "error + 'a \<Rightarrow> ('a \<Rightarrow> error + 'b) \<Rightarrow> error + 'b" where
  "andThen r f = (case r of Inl e \<Rightarrow> Inl e | Inr x \<Rightarrow> f x)"

definition deref :: "heap \<Rightarrow> addr \<Rightarrow> error + object" where
  "deref h a = (if a < length h then Inr (h ! a) else Inl Dangling)"

definition alloc :: "heap \<Rightarrow> object \<Rightarrow> addr \<times> heap" where
  "alloc h ob = (length h, h @ [ob])"

text \<open>
  Falsy values of JavaScript: \<open>undefined\<close>, \<open>null\<close>, \<open>false\<close>, \<open>0\<close>, \<open>NaN\<close> and the empty
  string. Every object is truthy.
\<close>

fun truthy :: "jsvalue \<Rightarrow> bool" where
  "truthy Undefined = False"
| "truthy Null = False"
| "truthy (Boolean b) = b"
| "truthy (Number NaN) = False"
| "truthy (Number (Finite q)) = (q \<noteq> 0)"
| "truthy (String s) = (s \<noteq> [])"
| "truthy (Ref a) = True"

text \<open>
  Writing an own property: an existing name keeps its place and takes the new value, a new
  name goes to the end.
\<close>

fun put :: "string \<Rightarrow> jsvalue \<Rightarrow> (string \<times> jsvalue) list \<Rightarrow> (string \<times> jsvalue) list" where
  "put k v [] = [(k, v)]"
| "put k v ((k', v') # ps) = (if k' = k then (k, v) # ps else (k', v') # put k v ps)"

text \<open>
  The own property of a name on an object, \<open>undefined\<close> when the object has none; \<open>get\<close>
  is the same on the object at an address. The theorems observe objects through \<open>get\<close>.
\<close>

definition field :: "object \<Rightarrow> string \<Rightarrow> jsvalue" where
  "field ob k = (case map_of (props ob) k of None \<Rightarrow> Undefined | Some v \<Rightarrow> v)"

definition get :: "heap \<Rightarrow> addr \<Rightarrow> string \<Rightarrow> error + jsvalue" where
  "get h a k = andThen (deref h a) (\<lambda>ob. Inr (field ob k))"

text \<open>
  The prototype chain that starts at a prototype: the addresses of the heap objects on it,
  in order, and the prototype after the last of them, which is one of the three class
  prototypes or \<open>No_prototype\<close>. The first argument bounds the number of steps; a chain
  without a cycle has at most as many objects as the heap.
\<close>

fun proto_chain :: "nat \<Rightarrow> heap \<Rightarrow> prototype \<Rightarrow> error + (addr list \<times> prototype)" where
  "proto_chain 0 h (Object_at a) = Inl Cyclic"
| "proto_chain (Suc n) h (Object_at a) =
     andThen (deref h a) (\<lambda>ob.
     andThen (proto_chain n h (proto ob)) (\<lambda>(as, t). Inr (a # as, t)))"
| "proto_chain n h p = Inr ([], p)"

text \<open>The object itself and, after it, the heap objects on its prototype chain.\<close>

definition lookup_path :: "heap \<Rightarrow> object \<Rightarrow> addr list \<Rightarrow> object list" where
  "lookup_path h ob as = ob # map (\<lambda>a. h ! a) as"

definition owns :: "string \<Rightarrow> object \<Rightarrow> bool" where
  "owns k ob = (map_of (props ob) k \<noteq> None)"

text \<open>
  Reading a data property \<open>o.k\<close>: the property of the first object that owns the name, on
  the object or along its prototype chain, and \<open>undefined\<close> when none does. The functions
  read \<open>id\<close>, \<open>amount\<close>, \<open>status\<close> and \<open>metadata\<close>, names that none of the three class
  prototypes defines; the method \<open>isPaid\<close>, which one does, is looked up by \<open>call_isPaid\<close>
  below.
\<close>

definition read :: "heap \<Rightarrow> addr \<Rightarrow> string \<Rightarrow> error + jsvalue" where
  "read h a k =
     andThen (deref h a) (\<lambda>ob.
     andThen (proto_chain (length h) h (proto ob)) (\<lambda>(as, t).
     Inr (case find (owns k) (lookup_path h ob as) of
            None \<Rightarrow> Undefined
          | Some ob' \<Rightarrow> field ob' k)))"

text \<open>
  The setter of the accessor \<open>__proto__\<close> of \<open>Object.prototype\<close>, called on the object at
  address \<open>a\<close>: an object or \<open>null\<close> becomes the prototype, any other value is
  ignored. Making an object its own ancestor is refused with \<open>TypeError\<close>.
\<close>

definition set_prototype :: "heap \<Rightarrow> addr \<Rightarrow> jsvalue \<Rightarrow> error + heap" where
  "set_prototype h a v =
     (case v of
        Ref b \<Rightarrow>
          andThen (deref h a) (\<lambda>ob.
            if proto ob = Object_at b then Inr h
            else andThen (proto_chain (length h) h (Object_at b)) (\<lambda>(bs, t).
                   if a \<in> set bs then Inl TypeError
                   else Inr (h[a := ob\<lparr>proto := Object_at b\<rparr>])))
      | Null \<Rightarrow> andThen (deref h a) (\<lambda>ob. Inr (h[a := ob\<lparr>proto := No_prototype\<rparr>]))
      | _ \<Rightarrow> Inr h)"

text \<open>
  The assignment \<open>o.k = v\<close> on the object at address \<open>a\<close>. It writes an own data
  property, except for the name \<open>__proto__\<close> when the lookup of that name ends at the
  accessor of \<open>Object.prototype\<close>: when neither the object nor an object on its chain owns
  a property \<open>__proto__\<close>, and the chain ends in a class prototype. Then the setter runs and
  no property is created.
\<close>

definition set_field :: "heap \<Rightarrow> addr \<Rightarrow> string \<Rightarrow> jsvalue \<Rightarrow> error + heap" where
  "set_field h a k v =
     andThen (deref h a) (\<lambda>ob.
       if k = ''__proto__'' then
         andThen (proto_chain (length h) h (proto ob)) (\<lambda>(as, t).
           if t \<noteq> No_prototype \<and> \<not> list_ex (owns k) (lookup_path h ob as)
           then set_prototype h a v
           else Inr (h[a := ob\<lparr>props := put k v (props ob)\<rparr>]))
       else Inr (h[a := ob\<lparr>props := put k v (props ob)\<rparr>]))"

text \<open>
  The own enumerable properties that a spread \<open>...v\<close> or \<open>Object.assign(_, v)\<close> copies
  from a value: those of the object for a reference (a property named \<open>__proto__\<close>
  included, if the object owns one), the indexed characters for a string, none for
  \<open>undefined\<close>, \<open>null\<close>, a boolean or a number.
\<close>

fun decimal :: "nat \<Rightarrow> string" where
  "decimal n =
     (if n < 10 then [char_of (48 + n)]
      else decimal (n div 10) @ [char_of (48 + n mod 10)])"

declare decimal.simps [simp del]

definition own_enumerable :: "heap \<Rightarrow> jsvalue \<Rightarrow> error + (string \<times> jsvalue) list" where
  "own_enumerable h v =
     (case v of
        Ref a \<Rightarrow> andThen (deref h a) (\<lambda>ob. Inr (props ob))
      | String s \<Rightarrow> Inr (map (\<lambda>i. (decimal i, String [s ! i])) [0..<length s])
      | _ \<Rightarrow> Inr [])"

text \<open>
  Defining properties one by one on a property list, in the source's order. An object
  spread copies this way: it defines own data properties, \<open>__proto__\<close> like any other name.
\<close>

definition copy_props ::
  "(string \<times> jsvalue) list \<Rightarrow> (string \<times> jsvalue) list \<Rightarrow> (string \<times> jsvalue) list" where
  "copy_props src tgt = fold (\<lambda>(k, v). put k v) src tgt"

text \<open>
  \<open>Object.assign(target, source)\<close> copies by assignment, \<open>target[k] = v\<close> for each own
  enumerable property of the source in order, so a source property named \<open>__proto__\<close>
  reaches the setter.
\<close>

fun assign_all :: "heap \<Rightarrow> addr \<Rightarrow> (string \<times> jsvalue) list \<Rightarrow> error + heap" where
  "assign_all h target [] = Inr h"
| "assign_all h target ((k, v) # src) =
     andThen (set_field h target k v) (\<lambda>h'. assign_all h' target src)"

definition Object_assign :: "heap \<Rightarrow> addr \<Rightarrow> jsvalue \<Rightarrow> error + heap" where
  "Object_assign h target source =
     andThen (own_enumerable h source) (\<lambda>src. assign_all h target src)"

text \<open>The object literal \<open>{ ...a, ...b }\<close>: a new plain object.\<close>

definition spread2 :: "heap \<Rightarrow> jsvalue \<Rightarrow> jsvalue \<Rightarrow> error + (addr \<times> heap)" where
  "spread2 h a b =
     andThen (own_enumerable h a) (\<lambda>pa.
     andThen (own_enumerable h b) (\<lambda>pb.
     Inr (alloc h \<lparr>proto = Object_prototype, props = copy_props pb (copy_props pa [])\<rparr>)))"

section \<open>The class Order\<close>

text \<open>
  \<^verbatim>\<open>
  class Order {
    id: string; amount: number;
    status: 'PENDING' | 'PAID' | 'CANCELLED';
    metadata: Record<string, any>;
    constructor(partial: Partial<Order>) { Object.assign(this, partial); }
    isPaid(): boolean { return this.status === 'PAID'; }
  }
  \<close>
  The field declarations have no initialiser: the constructor's \<open>Object.assign\<close> creates
  the properties. The class of the second file is the same without \<open>isPaid\<close>.
\<close>

definition construct :: "prototype \<Rightarrow> heap \<Rightarrow> addr \<Rightarrow> error + (addr \<times> heap)" where
  "construct p h partial =
     (let (this, h1) = alloc h \<lparr>proto = p, props = []\<rparr>
      in andThen (Object_assign h1 this (Ref partial)) (\<lambda>h2. Inr (this, h2)))"

definition new_Order :: "heap \<Rightarrow> addr \<Rightarrow> error + (addr \<times> heap)" where
  "new_Order = construct Order_prototype"

definition new_Order_part_001 :: "heap \<Rightarrow> addr \<Rightarrow> error + (addr \<times> heap)" where
  "new_Order_part_001 = construct Order_prototype_part_001"

text \<open>The body of \<open>isPaid\<close>, with \<open>this\<close> the object at the given address.\<close>

definition isPaid :: "heap \<Rightarrow> addr \<Rightarrow> error + bool" where
  "isPaid h this = andThen (read h this ''status'') (\<lambda>s. Inr (s = String ''PAID''))"

text \<open>
  The call \<open>o.isPaid()\<close>. A data property of that name, on the object or on an object of
  its prototype chain, shadows the method, and no value of the model is a function: the
  call throws \<open>TypeError\<close>. Otherwise the end of the chain decides: only \<open>Order.prototype\<close>
  of the first file has the method.
\<close>

definition call_isPaid :: "heap \<Rightarrow> addr \<Rightarrow> error + bool" where
  "call_isPaid h a =
     andThen (deref h a) (\<lambda>ob.
     andThen (proto_chain (length h) h (proto ob)) (\<lambda>(as, t).
       if list_ex (owns ''isPaid'') (lookup_path h ob as) then Inl TypeError
       else if t = Order_prototype then isPaid h a
       else Inl TypeError))"

text \<open>\<open>o instanceof Order\<close>: whether \<open>Order.prototype\<close> is on the prototype chain.\<close>

definition instanceof_Order :: "heap \<Rightarrow> addr \<Rightarrow> error + bool" where
  "instanceof_Order h a =
     andThen (deref h a) (\<lambda>ob.
     andThen (proto_chain (length h) h (proto ob)) (\<lambda>(as, t).
     Inr (t = Order_prototype)))"

section \<open>The update functions\<close>

text \<open>
  \<^verbatim>\<open>
  function riskyUpdateOrder(original: Order, updates: Partial<Order>): any {
    return { ...original, ...updates };
  }
  \<close>
  \<open>riskyUpdateConfig\<close> of the second file has the same body.
\<close>

definition riskyUpdateOrder :: "heap \<Rightarrow> addr \<Rightarrow> addr \<Rightarrow> error + (addr \<times> heap)" where
  "riskyUpdateOrder h original updates = spread2 h (Ref original) (Ref updates)"

definition riskyUpdateConfig :: "heap \<Rightarrow> addr \<Rightarrow> addr \<Rightarrow> error + (addr \<times> heap)" where
  "riskyUpdateConfig h original updates = spread2 h (Ref original) (Ref updates)"

text \<open>
  \<^verbatim>\<open>
  function safeUpdateOrder(original: Order, updates: Partial<Order>): Order {
    const updated = new Order(original);
    if (updates.status) updated.status = updates.status;
    if (updates.amount) updated.amount = updates.amount;
    if (updates.metadata) {
      updated.metadata = { ...original.metadata, ...updates.metadata };
    }
    return updated;
  }
  \<close>
  A property read has no effect, so each \<open>updates.k\<close> is read once.
\<close>

definition safeUpdateOrder :: "heap \<Rightarrow> addr \<Rightarrow> addr \<Rightarrow> error + (addr \<times> heap)" where
  "safeUpdateOrder h original updates =
     andThen (new_Order h original) (\<lambda>(updated, h1).
     andThen (read h1 updates ''status'') (\<lambda>status.
     andThen (if truthy status then set_field h1 updated ''status'' status else Inr h1) (\<lambda>h2.
     andThen (read h2 updates ''amount'') (\<lambda>amount.
     andThen (if truthy amount then set_field h2 updated ''amount'' amount else Inr h2) (\<lambda>h3.
     andThen (read h3 updates ''metadata'') (\<lambda>metadata.
     andThen (if truthy metadata then
                andThen (read h3 original ''metadata'') (\<lambda>original_metadata.
                andThen (spread2 h3 original_metadata metadata) (\<lambda>(merged, h4).
                set_field h4 updated ''metadata'' (Ref merged)))
              else Inr h3) (\<lambda>h5.
     Inr (updated, h5))))))))"

text \<open>\<open>safeUpdateConfig\<close> of the second file: the same statements, on that file's class.\<close>

definition safeUpdateConfig :: "heap \<Rightarrow> addr \<Rightarrow> addr \<Rightarrow> error + (addr \<times> heap)" where
  "safeUpdateConfig h original updates =
     andThen (new_Order_part_001 h original) (\<lambda>(updated, h1).
     andThen (read h1 updates ''status'') (\<lambda>status.
     andThen (if truthy status then set_field h1 updated ''status'' status else Inr h1) (\<lambda>h2.
     andThen (read h2 updates ''amount'') (\<lambda>amount.
     andThen (if truthy amount then set_field h2 updated ''amount'' amount else Inr h2) (\<lambda>h3.
     andThen (read h3 updates ''metadata'') (\<lambda>metadata.
     andThen (if truthy metadata then
                andThen (read h3 original ''metadata'') (\<lambda>original_metadata.
                andThen (spread2 h3 original_metadata metadata) (\<lambda>(merged, h4).
                set_field h4 updated ''metadata'' (Ref merged)))
              else Inr h3) (\<lambda>h5.
     Inr (updated, h5))))))))"

section \<open>Well-formed heaps, entities and updates\<close>

text \<open>
  A JavaScript heap has no dangling reference, and an object has each property name once.
  The heaps of the theorems hold objects made by object literals and by the constructors
  of the two classes: the prototype of each is one of the three class prototypes.
\<close>

definition wf_value :: "heap \<Rightarrow> jsvalue \<Rightarrow> bool" where
  "wf_value h v = (case v of Ref a \<Rightarrow> a < length h | _ \<Rightarrow> True)"

definition class_prototype :: "prototype \<Rightarrow> bool" where
  "class_prototype p = (case p of Object_at a \<Rightarrow> False | No_prototype \<Rightarrow> False | _ \<Rightarrow> True)"

definition wf_object :: "heap \<Rightarrow> object \<Rightarrow> bool" where
  "wf_object h ob =
     (class_prototype (proto ob) \<and> distinct (map fst (props ob)) \<and>
      list_all (\<lambda>(k, v). wf_value h v) (props ob))"

definition wf_heap :: "heap \<Rightarrow> bool" where
  "wf_heap h = list_all (wf_object h) h"

text \<open>
  The declared types of the fields of \<open>Order\<close>: \<open>id: string\<close>, \<open>amount: number\<close>,
  \<open>status: 'PENDING' | 'PAID' | 'CANCELLED'\<close>, \<open>metadata: Record<string, any>\<close>.
\<close>

definition status_enum :: "string list" where
  "status_enum = [''PENDING'', ''PAID'', ''CANCELLED'']"

definition is_string :: "jsvalue \<Rightarrow> bool" where
  "is_string v = (case v of String s \<Rightarrow> True | _ \<Rightarrow> False)"

definition is_number :: "jsvalue \<Rightarrow> bool" where
  "is_number v = (case v of Number n \<Rightarrow> True | _ \<Rightarrow> False)"

definition is_status :: "jsvalue \<Rightarrow> bool" where
  "is_status v = (case v of String s \<Rightarrow> s \<in> set status_enum | _ \<Rightarrow> False)"

definition is_record :: "heap \<Rightarrow> jsvalue \<Rightarrow> bool" where
  "is_record h v = (case v of Ref a \<Rightarrow> a < length h | _ \<Rightarrow> False)"

text \<open>
  An Entity: an instance of the class \<open>Order\<close> of \<open>spread-operator.spec.ts\<close> whose four
  fields have their declared types, and whose method \<open>isPaid\<close> is the one of the class.
  It owns no property named \<open>__proto__\<close>: the constructor of the class, which creates the
  properties of an instance by \<open>Object.assign\<close>, never creates one.
\<close>

definition Entity :: "heap \<Rightarrow> addr \<Rightarrow> bool" where
  "Entity h a =
     (a < length h \<and>
      proto (h ! a) = Order_prototype \<and>
      map_of (props (h ! a)) ''isPaid'' = None \<and>
      map_of (props (h ! a)) ''__proto__'' = None \<and>
      is_string (field (h ! a) ''id'') \<and>
      is_number (field (h ! a) ''amount'') \<and>
      is_status (field (h ! a) ''status'') \<and>
      is_record h (field (h ! a) ''metadata''))"

text \<open>
  An Update, of type \<open>Partial<Order>\<close>: an object on which each of the four fields is
  \<open>undefined\<close> (left out) or has its declared type.
\<close>

definition optional :: "(jsvalue \<Rightarrow> bool) \<Rightarrow> jsvalue \<Rightarrow> bool" where
  "optional P v = (v = Undefined \<or> P v)"

definition Update :: "heap \<Rightarrow> addr \<Rightarrow> bool" where
  "Update h a =
     (a < length h \<and>
      optional is_string (field (h ! a) ''id'') \<and>
      optional is_number (field (h ! a) ''amount'') \<and>
      optional is_status (field (h ! a) ''status'') \<and>
      optional (is_record h) (field (h ! a) ''metadata''))"

section \<open>The objects a safe update allocates\<close>

text \<open>
  What \<open>Object.assign\<close> does to a new instance of a class, from the properties of its
  source: the properties it creates are those of the source but \<open>__proto__\<close>, and an object
  or \<open>null\<close> under that name becomes the prototype of the instance.
\<close>

definition assigned_props :: "(string \<times> jsvalue) list \<Rightarrow> (string \<times> jsvalue) list" where
  "assigned_props ps = filter (\<lambda>(k, v). k \<noteq> ''__proto__'') ps"

definition assigned_proto :: "prototype \<Rightarrow> (string \<times> jsvalue) list \<Rightarrow> prototype" where
  "assigned_proto p ps =
     (case map_of ps ''__proto__'' of
        Some (Ref b) \<Rightarrow> Object_at b
      | Some Null \<Rightarrow> No_prototype
      | _ \<Rightarrow> p)"

text \<open>
  The properties of the object that \<open>safeUpdateOrder\<close> returns, before its \<open>metadata\<close>
  is assigned, from the original object and the update object.
\<close>

definition updated_props :: "object \<Rightarrow> object \<Rightarrow> (string \<times> jsvalue) list" where
  "updated_props eo uo =
     (let p0 = copy_props (assigned_props (props eo)) [];
          p1 = (if truthy (field uo ''status'')
                then put ''status'' (field uo ''status'') p0 else p0)
      in if truthy (field uo ''amount'') then put ''amount'' (field uo ''amount'') p1 else p1)"

text \<open>
  The objects a safe update appends to a heap of \<open>n\<close> objects: the new instance and, when
  the update has a truthy \<open>metadata\<close>, the merged metadata object after it. \<open>pe\<close> and
  \<open>pu\<close> are the properties spread from the original's and the update's \<open>metadata\<close>.
\<close>

definition updated_objects ::
  "prototype \<Rightarrow> addr \<Rightarrow> object \<Rightarrow> object \<Rightarrow>
   (string \<times> jsvalue) list \<Rightarrow> (string \<times> jsvalue) list \<Rightarrow> object list" where
  "updated_objects p n eo uo pe pu =
     (if truthy (field uo ''metadata'')
      then [\<lparr>proto = assigned_proto p (props eo),
              props = put ''metadata'' (Ref (Suc n)) (updated_props eo uo)\<rparr>,
            \<lparr>proto = Object_prototype, props = copy_props pu (copy_props pe [])\<rparr>]
      else [\<lparr>proto = assigned_proto p (props eo), props = updated_props eo uo\<rparr>])"

section \<open>Example heaps\<close>

text \<open>
  The order of the tests, at address 0, with its metadata object at address 1:
  \<open>{id: 'o_123', amount: 100, status: 'PENDING',
    metadata: {campaign: 'summer_sale', referrer: 'google'}}\<close>.
  An update object follows at address 2, and its metadata object, if any, at address 3.
\<close>

definition plain :: "(string \<times> jsvalue) list \<Rightarrow> object" where
  "plain ps = \<lparr>proto = Object_prototype, props = ps\<rparr>"

definition order_o_123 :: object where
  "order_o_123 = \<lparr>proto = Order_prototype, props =
     [(''id'', String ''o_123''), (''amount'', Number (Finite 100)),
      (''status'', String ''PENDING''), (''metadata'', Ref 1)]\<rparr>"

definition metadata_o_123 :: object where
  "metadata_o_123 =
     plain [(''campaign'', String ''summer_sale''), (''referrer'', String ''google'')]"

text \<open>\<open>{status: 'PAID', metadata: {traceId: 'safe_1'}}\<close>\<close>

definition heap_paid :: heap where
  "heap_paid = [order_o_123, metadata_o_123,
     plain [(''status'', String ''PAID''), (''metadata'', Ref 3)],
     plain [(''traceId'', String ''safe_1'')]]"

text \<open>\<open>{status: 'UNKNOWN'}\<close>\<close>

definition heap_unknown :: heap where
  "heap_unknown = [order_o_123, metadata_o_123, plain [(''status'', String ''UNKNOWN'')]]"

text \<open>\<open>{amount: 0}\<close>\<close>

definition heap_zero :: heap where
  "heap_zero = [order_o_123, metadata_o_123, plain [(''amount'', Number (Finite 0))]]"

text \<open>\<open>{}\<close>\<close>

definition heap_empty :: heap where
  "heap_empty = [order_o_123, metadata_o_123, plain []]"

text \<open>\<open>{id: 'o_999', amount: 200}\<close>\<close>

definition heap_id :: heap where
  "heap_id = [order_o_123, metadata_o_123,
     plain [(''id'', String ''o_999''), (''amount'', Number (Finite 200))]]"

text \<open>
  The same order with an own property \<open>__proto__\<close> that refers to its metadata object, as
  \<open>Object.defineProperty\<close> or a spread of parsed JSON can create it; the update is \<open>{}\<close>.
\<close>

definition heap_proto :: heap where
  "heap_proto =
     [order_o_123\<lparr>props := props order_o_123 @ [(''__proto__'', Ref 1)]\<rparr>,
      metadata_o_123, plain []]"

text \<open>\<open>{metadata: {referrer: 'bing', traceId: 'xyz_999'}}\<close>\<close>

definition heap_trace :: heap where
  "heap_trace = [order_o_123, metadata_o_123,
     plain [(''metadata'', Ref 3)],
     plain [(''referrer'', String ''bing''), (''traceId'', String ''xyz_999'')]]"

section \<open>Properties of property lists\<close>

lemma map_of_put_at: "map_of (put k v ps) k' = (if k' = k then Some v else map_of ps k')"
  by (induction ps) auto

lemma map_of_put: "map_of (put k v ps) = (map_of ps)(k \<mapsto> v)"
  by (rule ext) (simp add: map_of_put_at)

lemma keys_put: "(k' \<in> fst ` set (put k v ps)) = (k' = k \<or> k' \<in> fst ` set ps)"
proof -
  have "(map_of (put k v ps) k' = None) = (k' \<noteq> k \<and> map_of ps k' = None)"
    by (simp add: map_of_put_at)
  then show ?thesis
    by (simp only: map_of_eq_None_iff) blast
qed

lemma distinct_put: "distinct (map fst ps) \<Longrightarrow> distinct (map fst (put k v ps))"
  by (induction ps) (auto simp: keys_put)

lemma copy_props_Nil: "copy_props [] tgt = tgt"
  by (simp add: copy_props_def)

lemma copy_props_Cons: "copy_props ((k, v) # src) tgt = copy_props src (put k v tgt)"
  by (simp add: copy_props_def)

lemma map_of_copy_props:
  "distinct (map fst src) \<Longrightarrow> map_of (copy_props src tgt) = map_of tgt ++ map_of src"
proof (induction src arbitrary: tgt)
  case Nil
  then show ?case by (simp add: copy_props_Nil)
next
  case (Cons p src)
  obtain k v where p: "p = (k, v)" by (cases p)
  from Cons.prems p have k: "map_of src k = None" and d: "distinct (map fst src)"
    by (auto simp: map_of_eq_None_iff)
  have "map_of (copy_props (p # src) tgt) = (map_of tgt)(k \<mapsto> v) ++ map_of src"
    by (simp only: p copy_props_Cons Cons.IH [OF d] map_of_put)
  also have "\<dots> = map_of tgt ++ map_of (p # src)"
  proof (rule ext)
    fix x
    show "((map_of tgt)(k \<mapsto> v) ++ map_of src) x = (map_of tgt ++ map_of (p # src)) x"
      using k by (cases "x = k") (simp_all add: p map_add_def split: option.splits)
  qed
  finally show ?case .
qed

lemma distinct_copy_props:
  "distinct (map fst tgt) \<Longrightarrow> distinct (map fst (copy_props src tgt))"
  by (induction src arbitrary: tgt) (auto simp: copy_props_Nil copy_props_Cons distinct_put)

lemma assigned_props_Cons:
  "assigned_props ((k, v) # ps) =
     (if k = ''__proto__'' then assigned_props ps else (k, v) # assigned_props ps)"
  by (simp add: assigned_props_def)

lemma assigned_props_id: "map_of ps ''__proto__'' = None \<Longrightarrow> assigned_props ps = ps"
  by (induction ps) (auto simp: assigned_props_def split: if_splits)

lemma map_of_assigned_props:
  "map_of (assigned_props ps) k = (if k = ''__proto__'' then None else map_of ps k)"
  by (induction ps) (auto simp: assigned_props_def)

lemma distinct_assigned_props:
  "distinct (map fst ps) \<Longrightarrow> distinct (map fst (assigned_props ps))"
  by (simp add: assigned_props_def distinct_map_filter)

lemma assigned_proto_id: "map_of ps ''__proto__'' = None \<Longrightarrow> assigned_proto p ps = p"
  by (simp add: assigned_proto_def)

section \<open>Well-formed heaps\<close>

lemma wf_object_nth: "wf_heap h \<Longrightarrow> a < length h \<Longrightarrow> wf_object h (h ! a)"
  by (simp add: wf_heap_def list_all_length)

lemma wf_distinct: "wf_heap h \<Longrightarrow> a < length h \<Longrightarrow> distinct (map fst (props (h ! a)))"
  using wf_object_nth [of h a] by (simp add: wf_object_def)

lemma wf_class: "wf_heap h \<Longrightarrow> a < length h \<Longrightarrow> class_prototype (proto (h ! a))"
  using wf_object_nth [of h a] by (simp add: wf_object_def)

lemma wf_values:
  "wf_heap h \<Longrightarrow> a < length h \<Longrightarrow> (k, v) \<in> set (props (h ! a)) \<Longrightarrow> wf_value h v"
  using wf_object_nth [of h a] by (auto simp: wf_object_def list_all_iff)

lemma wf_field:
  assumes "wf_heap h" and "a < length h"
  shows "wf_value h (field (h ! a) k)"
proof (cases "map_of (props (h ! a)) k")
  case None
  then show ?thesis by (simp add: field_def wf_value_def)
next
  case (Some v)
  then have "(k, v) \<in> set (props (h ! a))" by (rule map_of_SomeD)
  then have "wf_value h v" by (rule wf_values [OF assms])
  with Some show ?thesis by (simp add: field_def)
qed

lemma own_enumerable_wf: "wf_value h v \<Longrightarrow> \<exists>ps. own_enumerable h v = Inr ps"
  by (cases v) (simp_all add: own_enumerable_def wf_value_def deref_def andThen_def)

lemma optional_truthy: "optional P v \<Longrightarrow> truthy v \<Longrightarrow> P v"
  by (auto simp: optional_def)

lemma is_record_mono: "is_record h v \<Longrightarrow> is_record (h @ hs) v"
  by (cases v) (simp_all add: is_record_def)

section \<open>Each step on an allocated object\<close>

lemma proto_chain_class: "class_prototype p \<Longrightarrow> proto_chain n h p = Inr ([], p)"
  by (cases p) (simp_all add: class_prototype_def)

lemma get_eq: "a < length h \<Longrightarrow> get h a k = Inr (field (h ! a) k)"
  by (simp add: get_def deref_def andThen_def)

text \<open>
  On an object whose prototype is a class prototype, reading a property is reading the own
  property.
\<close>

lemma read_eq:
  "a < length h \<Longrightarrow> class_prototype (proto (h ! a)) \<Longrightarrow> read h a k = Inr (field (h ! a) k)"
  by (simp add: read_def deref_def andThen_def proto_chain_class lookup_path_def owns_def
      field_def split: option.splits)

lemma read_eq_get: "wf_heap h \<Longrightarrow> a < length h \<Longrightarrow> read h a k = get h a k"
  by (simp add: read_eq get_eq wf_class)

lemma set_field_data:
  "a < length h \<Longrightarrow> k \<noteq> ''__proto__'' \<Longrightarrow>
   set_field h a k v = Inr (h[a := (h ! a)\<lparr>props := put k v (props (h ! a))\<rparr>])"
  by (simp add: set_field_def deref_def andThen_def)

text \<open>
  Assigning \<open>__proto__\<close> to an object that owns no such property and has a class prototype:
  the setter runs.
\<close>

lemma set_field_proto:
  assumes "a < length h" and "class_prototype (proto (h ! a))"
    and "map_of (props (h ! a)) ''__proto__'' = None"
    and "\<And>b. v = Ref b \<Longrightarrow> b < length h \<and> b \<noteq> a \<and> class_prototype (proto (h ! b))"
  shows "set_field h a ''__proto__'' v =
     Inr (h[a := (h ! a)\<lparr>proto := assigned_proto (proto (h ! a)) [(''__proto__'', v)]\<rparr>])"
proof -
  have "proto (h ! a) \<noteq> No_prototype"
    using assms(2) by (auto simp: class_prototype_def)
  then have setter: "set_field h a ''__proto__'' v = set_prototype h a v"
    using assms(1-3)
    by (simp add: set_field_def deref_def andThen_def proto_chain_class lookup_path_def
        owns_def)
  have "set_prototype h a v =
     Inr (h[a := (h ! a)\<lparr>proto := assigned_proto (proto (h ! a)) [(''__proto__'', v)]\<rparr>])"
  proof (cases v)
    case (Ref b)
    with assms(4) have b: "b < length h" "b \<noteq> a" "class_prototype (proto (h ! b))"
      by simp_all
    from assms(1) obtain n where n: "length h = Suc n"
      by (cases "length h") simp_all
    have "proto_chain (length h) h (Object_at b) = Inr ([b], proto (h ! b))"
      using b by (simp add: n deref_def andThen_def proto_chain_class)
    moreover have "proto (h ! a) \<noteq> Object_at b"
      using assms(2) by (auto simp: class_prototype_def)
    ultimately show ?thesis
      using assms(1) b(2)
      by (simp add: Ref set_prototype_def deref_def andThen_def assigned_proto_def)
  next
    case Null
    then show ?thesis
      using assms(1)
      by (simp add: set_prototype_def deref_def andThen_def assigned_proto_def)
  qed (simp_all add: set_prototype_def assigned_proto_def)
  with setter show ?thesis by simp
qed

lemma assign_all_data:
  "a < length h \<Longrightarrow> map_of src ''__proto__'' = None \<Longrightarrow>
   assign_all h a src = Inr (h[a := (h ! a)\<lparr>props := copy_props src (props (h ! a))\<rparr>])"
proof (induction src arbitrary: h)
  case Nil
  then show ?case by (simp add: copy_props_Nil)
next
  case (Cons p src)
  obtain k v where p: "p = (k, v)" by (cases p)
  from Cons.prems(2) p have k: "k \<noteq> ''__proto__''" and rest: "map_of src ''__proto__'' = None"
    by (auto split: if_splits)
  let ?h1 = "h[a := (h ! a)\<lparr>props := put k v (props (h ! a))\<rparr>]"
  have a1: "a < length ?h1" using Cons.prems(1) by simp
  show ?case
    using Cons.prems(1)
    by (simp add: p set_field_data [OF Cons.prems(1) k] andThen_def Cons.IH [OF a1 rest]
        copy_props_Cons)
qed

lemma assigned_proto_skip:
  "k \<noteq> ''__proto__'' \<Longrightarrow> assigned_proto p ((k, v) # ps) = assigned_proto p ps"
  by (simp add: assigned_proto_def)

text \<open>
  \<open>Object.assign\<close> onto an object that has a class prototype and owns no \<open>__proto__\<close>, from
  properties whose references denote other objects with class prototypes.
\<close>

lemma assign_all_fresh:
  assumes "a < length h" and "class_prototype (proto (h ! a))"
    and "map_of (props (h ! a)) ''__proto__'' = None"
    and "distinct (map fst src)"
    and "\<And>k b. (k, Ref b) \<in> set src \<Longrightarrow>
           b < length h \<and> b \<noteq> a \<and> class_prototype (proto (h ! b))"
  shows "assign_all h a src =
     Inr (h[a := (h ! a)\<lparr>proto := assigned_proto (proto (h ! a)) src,
                         props := copy_props (assigned_props src) (props (h ! a))\<rparr>])"
  using assms
proof (induction src arbitrary: h)
  case Nil
  then show ?case
    by (simp add: copy_props_Nil assigned_props_def assigned_proto_def)
next
  case (Cons p src)
  obtain k v where p: "p = (k, v)" by (cases p)
  from Cons.prems(4) p have d: "distinct (map fst src)" and fresh: "map_of src k = None"
    by (auto simp: map_of_eq_None_iff)
  show ?case
  proof (cases "k = ''__proto__''")
    case True
    have refs: "b < length h \<and> b \<noteq> a \<and> class_prototype (proto (h ! b))" if "v = Ref b" for b
      using Cons.prems(5) [of k b] that p by simp
    let ?h1 = "h[a := (h ! a)\<lparr>proto := assigned_proto (proto (h ! a)) [(''__proto__'', v)]\<rparr>]"
    have step: "set_field h a ''__proto__'' v = Inr ?h1"
      using Cons.prems(1-3) refs by (rule set_field_proto)
    have a1: "a < length ?h1" using Cons.prems(1) by simp
    from fresh True have rest: "map_of src ''__proto__'' = None" by simp
    have proto: "assigned_proto (proto (h ! a)) ((''__proto__'', v) # src) =
        assigned_proto (proto (h ! a)) [(''__proto__'', v)]"
      by (simp add: assigned_proto_def)
    have props: "assigned_props ((''__proto__'', v) # src) = src"
      by (simp add: assigned_props_Cons assigned_props_id [OF rest])
    have "assign_all h a ((''__proto__'', v) # src) =
        Inr (?h1[a := (?h1 ! a)\<lparr>props := copy_props src (props (?h1 ! a))\<rparr>])"
      by (simp add: step andThen_def assign_all_data [OF a1 rest])
    also have "\<dots> = Inr (h[a := (h ! a)
        \<lparr>proto := assigned_proto (proto (h ! a)) [(''__proto__'', v)],
         props := copy_props src (props (h ! a))\<rparr>])"
      using Cons.prems(1) by simp
    finally show ?thesis
      unfolding p True proto props .
  next
    case False
    let ?h1 = "h[a := (h ! a)\<lparr>props := put k v (props (h ! a))\<rparr>]"
    have step: "set_field h a k v = Inr ?h1"
      using Cons.prems(1) False by (rule set_field_data)
    have a1: "a < length ?h1" using Cons.prems(1) by simp
    have c1: "class_prototype (proto (?h1 ! a))"
      using Cons.prems(1,2) by simp
    have o1: "map_of (props (?h1 ! a)) ''__proto__'' = None"
      using Cons.prems(1,3) False by (simp add: map_of_put_at)
    have r1: "b < length ?h1 \<and> b \<noteq> a \<and> class_prototype (proto (?h1 ! b))"
      if "(k', Ref b) \<in> set src" for k' b
      using Cons.prems(5) [of k' b] that by simp
    show ?thesis
      using Cons.prems(1) False
      by (simp add: p step andThen_def Cons.IH [OF a1 c1 o1 d r1] assigned_proto_skip
          assigned_props_Cons copy_props_Cons)
  qed
qed

lemma construct_eq:
  assumes "wf_heap h" and "a < length h" and "class_prototype p"
  shows "construct p h a =
     Inr (length h, h @ [\<lparr>proto = assigned_proto p (props (h ! a)),
                          props = copy_props (assigned_props (props (h ! a))) []\<rparr>])"
proof -
  let ?h1 = "h @ [\<lparr>proto = p, props = []\<rparr>]"
  have refs: "b < length ?h1 \<and> b \<noteq> length h \<and> class_prototype (proto (?h1 ! b))"
    if "(k, Ref b) \<in> set (props (h ! a))" for k b
  proof -
    from wf_values [OF assms(1,2) that] have "b < length h"
      by (simp add: wf_value_def)
    with wf_class [OF assms(1)] show ?thesis
      by (simp add: nth_append)
  qed
  have "assign_all ?h1 (length h) (props (h ! a)) =
     Inr (?h1[length h := (?h1 ! length h)
        \<lparr>proto := assigned_proto (proto (?h1 ! length h)) (props (h ! a)),
         props := copy_props (assigned_props (props (h ! a))) (props (?h1 ! length h))\<rparr>])"
    using assms(3) wf_distinct [OF assms(1,2)] refs
    by (intro assign_all_fresh) simp_all
  then show ?thesis
    using assms(2)
    by (simp add: construct_def alloc_def Object_assign_def own_enumerable_def deref_def
        andThen_def nth_append)
qed

lemma spread2_eq:
  "own_enumerable h a = Inr pa \<Longrightarrow> own_enumerable h b = Inr pb \<Longrightarrow>
   spread2 h a b =
     Inr (length h, h @ [\<lparr>proto = Object_prototype, props = copy_props pb (copy_props pa [])\<rparr>])"
  by (simp add: spread2_def andThen_def alloc_def)

lemma own_enumerable_append:
  "own_enumerable h v = Inr ps \<Longrightarrow> own_enumerable (h @ hs) v = Inr ps"
  by (auto simp: own_enumerable_def andThen_def deref_def nth_append
      split: jsvalue.splits if_splits)

lemma own_enumerable_Ref: "a < length h \<Longrightarrow> own_enumerable h (Ref a) = Inr (props (h ! a))"
  by (simp add: own_enumerable_def andThen_def deref_def)

lemma read_old:
  "wf_heap h \<Longrightarrow> a < length h \<Longrightarrow> read (h @ hs) a k = Inr (field (h ! a) k)"
  using read_eq [of a "h @ hs" k] wf_class [of h a] by (simp add: nth_append)

section \<open>The safe update in closed form\<close>

lemma safeUpdate_closed:
  assumes wf: "wf_heap h" and e: "e < length h" and u: "u < length h"
    and p: "class_prototype p"
    and pe: "own_enumerable h (field (h ! e) ''metadata'') = Inr pe"
    and pu: "own_enumerable h (field (h ! u) ''metadata'') = Inr pu"
  shows "andThen (construct p h e) (\<lambda>(updated, h1).
     andThen (read h1 u ''status'') (\<lambda>status.
     andThen (if truthy status then set_field h1 updated ''status'' status else Inr h1) (\<lambda>h2.
     andThen (read h2 u ''amount'') (\<lambda>amount.
     andThen (if truthy amount then set_field h2 updated ''amount'' amount else Inr h2) (\<lambda>h3.
     andThen (read h3 u ''metadata'') (\<lambda>metadata.
     andThen (if truthy metadata then
                andThen (read h3 e ''metadata'') (\<lambda>original_metadata.
                andThen (spread2 h3 original_metadata metadata) (\<lambda>(merged, h4).
                set_field h4 updated ''metadata'' (Ref merged)))
              else Inr h3) (\<lambda>h5.
     Inr (updated, h5))))))))
   = Inr (length h, h @ updated_objects p (length h) (h ! e) (h ! u) pe pu)"
  using e u
  by (simp add: construct_eq [OF wf e p] andThen_def read_old [OF wf] set_field_data nth_append
      updated_objects_def updated_props_def Let_def
      spread2_eq [OF own_enumerable_append [OF pe] own_enumerable_append [OF pu]])

lemma safeUpdateOrder_closed:
  assumes "wf_heap h" and "e < length h" and "u < length h"
    and "own_enumerable h (field (h ! e) ''metadata'') = Inr pe"
    and "own_enumerable h (field (h ! u) ''metadata'') = Inr pu"
  shows "safeUpdateOrder h e u =
     Inr (length h, h @ updated_objects Order_prototype (length h) (h ! e) (h ! u) pe pu)"
  unfolding safeUpdateOrder_def new_Order_def
  using assms(1-3) _ assms(4,5) by (rule safeUpdate_closed) (simp add: class_prototype_def)

lemma safeUpdateConfig_closed:
  assumes "wf_heap h" and "e < length h" and "u < length h"
    and "own_enumerable h (field (h ! e) ''metadata'') = Inr pe"
    and "own_enumerable h (field (h ! u) ''metadata'') = Inr pu"
  shows "safeUpdateConfig h e u =
     Inr (length h, h @ updated_objects Order_prototype_part_001 (length h) (h ! e) (h ! u) pe pu)"
  unfolding safeUpdateConfig_def new_Order_part_001_def
  using assms(1-3) _ assms(4,5) by (rule safeUpdate_closed) (simp add: class_prototype_def)

section \<open>The objects appended by a safe update\<close>

text \<open>
  On a well-formed heap a safe update never fails: it appends \<open>updated_objects\<close> to the
  heap and returns the address of the first of them.
\<close>

lemma safeUpdateOrder_wf:
  assumes "wf_heap h" and "e < length h" and "u < length h"
  shows "\<exists>pe pu. own_enumerable h (field (h ! e) ''metadata'') = Inr pe \<and>
           own_enumerable h (field (h ! u) ''metadata'') = Inr pu \<and>
           safeUpdateOrder h e u =
             Inr (length h, h @ updated_objects Order_prototype (length h) (h ! e) (h ! u) pe pu)"
proof -
  obtain pe where pe: "own_enumerable h (field (h ! e) ''metadata'') = Inr pe"
    using own_enumerable_wf [OF wf_field [OF assms(1,2)]] by blast
  obtain pu where pu: "own_enumerable h (field (h ! u) ''metadata'') = Inr pu"
    using own_enumerable_wf [OF wf_field [OF assms(1,3)]] by blast
  show ?thesis
    using safeUpdateOrder_closed [OF assms pe pu] pe pu by blast
qed

lemma nth_append_new: "(h @ hs) ! length h = hs ! 0"
  by (simp add: nth_append)

lemma nth_append_old: "a < length h \<Longrightarrow> (h @ hs) ! a = h ! a"
  by (simp add: nth_append)

lemma updated_objects_not_Nil: "updated_objects p n eo uo pe pu \<noteq> []"
  by (simp add: updated_objects_def)

lemma updated_objects_length_eq:
  "length (updated_objects p n eo uo pe pu) = (if truthy (field uo ''metadata'') then 2 else 1)"
  by (simp add: updated_objects_def)

lemma updated_objects_proto:
  "proto (updated_objects p n eo uo pe pu ! 0) = assigned_proto p (props eo)"
  by (simp add: updated_objects_def)

lemma updated_objects_props:
  "map props (updated_objects p n eo uo pe pu) = map props (updated_objects p' n eo uo pe pu)"
  by (simp add: updated_objects_def)

lemma updated_objects_merged:
  "truthy (field uo ''metadata'') \<Longrightarrow>
   (h @ updated_objects p n eo uo pe pu) ! Suc (length h) =
     \<lparr>proto = Object_prototype, props = copy_props pu (copy_props pe [])\<rparr>"
  by (simp add: updated_objects_def nth_append)

lemma map_of_copy_all: "distinct (map fst ps) \<Longrightarrow> map_of (copy_props ps []) = map_of ps"
  by (simp add: map_of_copy_props)

lemma map_of_updated_props:
  "distinct (map fst (props eo)) \<Longrightarrow>
   map_of (updated_props eo uo) k =
     (if k = ''amount'' \<and> truthy (field uo ''amount'') then Some (field uo ''amount'')
      else if k = ''status'' \<and> truthy (field uo ''status'') then Some (field uo ''status'')
      else if k = ''__proto__'' then None
      else map_of (props eo) k)"
  by (simp add: updated_props_def Let_def map_of_put_at map_of_copy_all
      distinct_assigned_props map_of_assigned_props)

lemma updated_objects_field:
  "distinct (map fst (props eo)) \<Longrightarrow>
   field (updated_objects p n eo uo pe pu ! 0) k =
     (if k = ''metadata'' \<and> truthy (field uo ''metadata'') then Ref (Suc n)
      else if k = ''amount'' \<and> truthy (field uo ''amount'') then field uo ''amount''
      else if k = ''status'' \<and> truthy (field uo ''status'') then field uo ''status''
      else if k = ''__proto__'' then Undefined
      else field eo k)"
  by (simp add: updated_objects_def field_def map_of_put_at map_of_updated_props)

lemma updated_objects_isPaid:
  "distinct (map fst (props eo)) \<Longrightarrow>
   map_of (props (updated_objects p n eo uo pe pu ! 0)) ''isPaid'' = map_of (props eo) ''isPaid''"
  by (simp add: updated_objects_def map_of_put_at map_of_updated_props)

lemma get_updated:
  "get (h @ updated_objects p n eo uo pe pu) (length h) k =
     Inr (field (updated_objects p n eo uo pe pu ! 0) k)"
  by (simp add: get_def deref_def andThen_def nth_append_new updated_objects_not_Nil)

section \<open>A safe update keeps the heap well-formed\<close>

lemma wf_value_mono: "wf_value h v \<Longrightarrow> wf_value (h @ hs) v"
  by (cases v) (simp_all add: wf_value_def)

lemma wf_values_put:
  "wf_value h v \<Longrightarrow> list_all (\<lambda>(k, v). wf_value h v) ps \<Longrightarrow>
   list_all (\<lambda>(k, v). wf_value h v) (put k v ps)"
  by (induction ps) auto

lemma wf_values_copy_props:
  "list_all (\<lambda>(k, v). wf_value h v) src \<Longrightarrow> list_all (\<lambda>(k, v). wf_value h v) tgt \<Longrightarrow>
   list_all (\<lambda>(k, v). wf_value h v) (copy_props src tgt)"
  by (induction src arbitrary: tgt) (auto simp: copy_props_Nil copy_props_Cons wf_values_put)

lemma wf_values_mono:
  "list_all (\<lambda>(k, v). wf_value h v) ps \<Longrightarrow> list_all (\<lambda>(k, v). wf_value (h @ hs) v) ps"
  by (induction ps) (auto simp: wf_value_mono)

lemma wf_object_mono: "wf_object h ob \<Longrightarrow> wf_object (h @ hs) ob"
  by (simp add: wf_object_def wf_values_mono)

lemma own_enumerable_wf_values:
  assumes "wf_heap h" and "own_enumerable h v = Inr ps"
  shows "list_all (\<lambda>(k, v). wf_value h v) ps"
proof (cases v)
  case (Ref a)
  with assms(2) have "a < length h" and "ps = props (h ! a)"
    by (auto simp: own_enumerable_def deref_def andThen_def split: if_splits)
  with wf_object_nth [OF assms(1)] show ?thesis
    by (simp add: wf_object_def)
next
  case (String s)
  with assms(2) show ?thesis
    by (auto simp: own_enumerable_def list_all_iff wf_value_def)
qed (use assms(2) in \<open>simp_all add: own_enumerable_def\<close>)

lemma wf_updated_props:
  assumes "wf_heap h" and "e < length h" and "u < length h"
  shows "distinct (map fst (updated_props (h ! e) (h ! u))) \<and>
         list_all (\<lambda>(k, v). wf_value h v) (updated_props (h ! e) (h ! u))"
proof -
  have "list_all (\<lambda>(k, v). wf_value h v) (props (h ! e))"
    using wf_object_nth [OF assms(1,2)] by (simp add: wf_object_def)
  then have "list_all (\<lambda>(k, v). wf_value h v) (assigned_props (props (h ! e)))"
    by (simp add: assigned_props_def list_all_iff)
  then have "list_all (\<lambda>(k, v). wf_value h v) (copy_props (assigned_props (props (h ! e))) [])"
    by (simp add: wf_values_copy_props)
  then show ?thesis
    using wf_field [OF assms(1,3)]
    by (simp add: updated_props_def Let_def distinct_put distinct_copy_props wf_values_put)
qed

text \<open>
  When the original owns no property \<open>__proto__\<close>, the heap after a safe update is
  well-formed again, so that reading a property of the result is reading its own property.
\<close>

lemma safeUpdateOrder_wf_heap:
  assumes "wf_heap h" and "e < length h" and "u < length h"
    and "map_of (props (h ! e)) ''__proto__'' = None"
  shows "\<exists>r h'. safeUpdateOrder h e u = Inr (r, h') \<and> wf_heap h'"
proof -
  obtain pe pu where pe: "own_enumerable h (field (h ! e) ''metadata'') = Inr pe"
    and pu: "own_enumerable h (field (h ! u) ''metadata'') = Inr pu"
    and run: "safeUpdateOrder h e u =
         Inr (length h, h @ updated_objects Order_prototype (length h) (h ! e) (h ! u) pe pu)"
    using safeUpdateOrder_wf [OF assms(1-3)] by blast
  let ?new = "updated_objects Order_prototype (length h) (h ! e) (h ! u) pe pu"
  have old: "list_all (wf_object (h @ ?new)) h"
    using assms(1) by (simp add: wf_heap_def list_all_iff wf_object_mono)
  have merged: "wf_object (h @ ?new)
      \<lparr>proto = Object_prototype, props = copy_props pu (copy_props pe [])\<rparr>"
    using own_enumerable_wf_values [OF assms(1) pe] own_enumerable_wf_values [OF assms(1) pu]
    by (simp add: wf_object_def distinct_copy_props wf_values_copy_props wf_values_mono
        class_prototype_def)
  have up: "distinct (map fst (updated_props (h ! e) (h ! u)))"
    "list_all (\<lambda>(k, v). wf_value (h @ ?new) v) (updated_props (h ! e) (h ! u))"
    using wf_updated_props [OF assms(1-3)] by (simp_all add: wf_values_mono)
  have cl: "class_prototype (assigned_proto Order_prototype (props (h ! e)))"
    by (simp add: assigned_proto_id [OF assms(4)] class_prototype_def)
  have new: "list_all (wf_object (h @ ?new)) ?new"
  proof (cases "truthy (field (h ! u) ''metadata'')")
    case True
    then have "wf_value (h @ ?new) (Ref (Suc (length h)))"
      by (simp add: wf_value_def updated_objects_def)
    with up cl have "wf_object (h @ ?new)
        \<lparr>proto = assigned_proto Order_prototype (props (h ! e)),
         props = put ''metadata'' (Ref (Suc (length h))) (updated_props (h ! e) (h ! u))\<rparr>"
      by (simp add: wf_object_def distinct_put wf_values_put)
    with merged True show ?thesis
      by (simp add: updated_objects_def [of _ "length h"])
  next
    case False
    from up cl have "wf_object (h @ ?new)
        \<lparr>proto = assigned_proto Order_prototype (props (h ! e)),
         props = updated_props (h ! e) (h ! u)\<rparr>"
      by (simp add: wf_object_def)
    with False show ?thesis
      by (simp add: updated_objects_def [of _ "length h"])
  qed
  from old new have "wf_heap (h @ ?new)"
    unfolding wf_heap_def by simp
  with run show ?thesis by blast
qed

section \<open>The risky update in closed form\<close>

lemma riskyUpdateOrder_closed:
  "e < length h \<Longrightarrow> u < length h \<Longrightarrow>
   riskyUpdateOrder h e u =
     Inr (length h, h @ [\<lparr>proto = Object_prototype,
                         props = copy_props (props (h ! u)) (copy_props (props (h ! e)) [])\<rparr>])"
  by (simp add: riskyUpdateOrder_def spread2_eq own_enumerable_Ref)

lemma get_new: "get (h @ [ob]) (length h) k = Inr (field ob k)"
  by (simp add: get_def deref_def andThen_def)

lemma riskyUpdateConfig_eq: "riskyUpdateConfig h e u = riskyUpdateOrder h e u"
  by (simp add: riskyUpdateConfig_def riskyUpdateOrder_def)

section \<open>Instances and method calls\<close>

lemma instanceof_Order_class:
  "a < length h \<Longrightarrow> class_prototype (proto (h ! a)) \<Longrightarrow>
   instanceof_Order h a = Inr (proto (h ! a) = Order_prototype)"
  by (simp add: instanceof_Order_def deref_def andThen_def proto_chain_class)

lemma call_isPaid_Order:
  "a < length h \<Longrightarrow> proto (h ! a) = Order_prototype \<Longrightarrow>
   map_of (props (h ! a)) ''isPaid'' = None \<Longrightarrow>
   call_isPaid h a = Inr (field (h ! a) ''status'' = String ''PAID'')"
  by (simp add: call_isPaid_def isPaid_def deref_def andThen_def proto_chain_class
      class_prototype_def lookup_path_def owns_def read_eq)

lemma call_isPaid_plain:
  "a < length h \<Longrightarrow> proto (h ! a) = Object_prototype \<Longrightarrow> call_isPaid h a = Inl TypeError"
  by (simp add: call_isPaid_def deref_def andThen_def proto_chain_class class_prototype_def)

section \<open>Evaluating the examples\<close>

lemmas example_heaps = heap_paid_def heap_unknown_def heap_zero_def heap_empty_def heap_id_def
  heap_trace_def heap_proto_def order_o_123_def metadata_o_123_def plain_def

lemmas wf_defs = wf_heap_def wf_object_def wf_value_def class_prototype_def

lemmas run_defs = safeUpdateOrder_def safeUpdateConfig_def riskyUpdateOrder_def new_Order_def
  new_Order_part_001_def construct_def alloc_def Object_assign_def own_enumerable_def
  spread2_def copy_props_def set_field_def set_prototype_def read_def lookup_path_def owns_def
  get_def field_def deref_def andThen_def

text \<open>
  A safe update of an original that owns a property \<open>__proto__\<close>: the constructor's
  \<open>Object.assign\<close> does not copy the property, it makes the metadata object the prototype of
  the new instance, which is then no instance of \<open>Order\<close> and has no method \<open>isPaid\<close>.
\<close>

lemma safeUpdateOrder_reparented:
  "wf_heap heap_proto \<and>
   safeUpdateOrder heap_proto 0 2 =
     Inr (3, heap_proto @
       [\<lparr>proto = Object_at 1, props =
          [(''id'', String ''o_123''), (''amount'', Number (Finite 100)),
           (''status'', String ''PENDING''), (''metadata'', Ref 1)]\<rparr>]) \<and>
   instanceof_Order
     (heap_proto @
       [\<lparr>proto = Object_at 1, props =
          [(''id'', String ''o_123''), (''amount'', Number (Finite 100)),
           (''status'', String ''PENDING''), (''metadata'', Ref 1)]\<rparr>]) 3 = Inr False \<and>
   call_isPaid
     (heap_proto @
       [\<lparr>proto = Object_at 1, props =
          [(''id'', String ''o_123''), (''amount'', Number (Finite 100)),
           (''status'', String ''PENDING''), (''metadata'', Ref 1)]\<rparr>]) 3 = Inl TypeError"
  by (simp add: wf_defs run_defs example_heaps instanceof_Order_def call_isPaid_def
      numeral_eq_Suc)

section \<open>The claims\<close>

text \<open>
  In the theorems below \<open>h\<close> is the heap before the call, \<open>e\<close> the address of the
  original and \<open>u\<close> the address of the update object. A theorem that asks only for a
  well-formed heap and two allocated addresses holds in particular for an \<open>Entity\<close> and an
  \<open>Update\<close>. The result is the address \<open>r\<close> in the heap \<open>h'\<close> after the call. Objects are
  observed through \<open>get\<close>, their own properties; on a well-formed heap that is what
  reading a property returns (\<open>read_eq_get\<close>).
\<close>

lemma Entity_allocated: "Entity h e \<Longrightarrow> e < length h"
  by (simp add: Entity_def)

lemma Update_allocated: "Update h u \<Longrightarrow> u < length h"
  by (simp add: Update_def)

subsection \<open>C1: a status outside the enumeration\<close>

text \<open>
  Claim C1 as the specification states it: an update that supplies a scalar value outside
  its enumeration, such as \<open>{status: 'UNKNOWN'}\<close>, makes the call fail with
  \<open>InvalidFieldError\<close>. The code has no such check. On the order of the tests the call
  returns normally, and the new instance has the status \<open>'UNKNOWN'\<close>.
\<close>

theorem invalid_status_counterexample:
  "Entity heap_unknown 0 \<and> get heap_unknown 2 ''status'' = Inr (String ''UNKNOWN'') \<and>
   \<not> is_status (String ''UNKNOWN'') \<and>
   safeUpdateOrder heap_unknown 0 2 =
     Inr (3, heap_unknown @
       [\<lparr>proto = Order_prototype, props =
          [(''id'', String ''o_123''), (''amount'', Number (Finite 100)),
           (''status'', String ''UNKNOWN''), (''metadata'', Ref 1)]\<rparr>])"
  by (simp add: run_defs example_heaps Entity_def is_string_def is_number_def is_status_def
      is_record_def status_enum_def)

text \<open>
  Claim C1, amended: for every Entity \<open>e\<close>, when the update supplies a truthy status
  outside the enumeration (a non-empty string such as \<open>'UNKNOWN'\<close>), \<open>safeUpdateOrder\<close>
  raises no error, returns an instance of \<open>Order\<close> whose status is the supplied value,
  and leaves every object that existed before the call, \<open>e\<close> among them, unchanged.
\<close>

theorem invalid_status_accepted:
  assumes "wf_heap h" and "Entity h e" and "u < length h"
    and "get h u ''status'' = Inr v" and "truthy v" and "\<not> is_status v"
  shows "\<exists>r h'. safeUpdateOrder h e u = Inr (r, h') \<and> instanceof_Order h' r = Inr True \<and>
           get h' r ''status'' = Inr v \<and> (\<forall>a<length h. h' ! a = h ! a)"
proof -
  from assms(2) have e: "e < length h" and own: "map_of (props (h ! e)) ''__proto__'' = None"
    by (simp_all add: Entity_def)
  obtain pe pu where
    *: "safeUpdateOrder h e u =
         Inr (length h, h @ updated_objects Order_prototype (length h) (h ! e) (h ! u) pe pu)"
    using safeUpdateOrder_wf [OF assms(1) e assms(3)] by blast
  let ?new = "updated_objects Order_prototype (length h) (h ! e) (h ! u) pe pu"
  from assms(3,4) have v: "field (h ! u) ''status'' = v"
    by (simp add: get_eq)
  have status: "get (h @ ?new) (length h) ''status'' = Inr v"
    using assms(5) v wf_distinct [OF assms(1) e]
    by (simp add: get_updated updated_objects_field)
  have "proto ((h @ ?new) ! length h) = Order_prototype"
    by (simp add: nth_append_new updated_objects_proto assigned_proto_id [OF own])
  moreover have "length h < length (h @ ?new)"
    by (simp add: updated_objects_not_Nil)
  ultimately have inst: "instanceof_Order (h @ ?new) (length h) = Inr True"
    by (simp add: instanceof_Order_class class_prototype_def)
  from * status inst show ?thesis by (simp add: nth_append_old)
qed

theorem invalid_status_accepted_witness:
  "wf_heap heap_unknown \<and> Entity heap_unknown 0 \<and> 2 < length heap_unknown \<and>
   get heap_unknown 2 ''status'' = Inr (String ''UNKNOWN'') \<and>
   truthy (String ''UNKNOWN'') \<and> \<not> is_status (String ''UNKNOWN'') \<and>
   (\<exists>r h'. safeUpdateOrder heap_unknown 0 2 = Inr (r, h') \<and>
      instanceof_Order h' r = Inr True \<and>
      get h' r ''status'' = Inr (String ''UNKNOWN'') \<and>
      (\<forall>a<length heap_unknown. h' ! a = heap_unknown ! a))"
proof -
  have wf: "wf_heap heap_unknown"
    by (simp add: wf_defs example_heaps)
  have len: "Entity heap_unknown 0" "2 < length heap_unknown"
    by (simp_all add: Entity_def field_def is_string_def is_number_def is_status_def
        is_record_def status_enum_def example_heaps)
  have st: "get heap_unknown 2 ''status'' = Inr (String ''UNKNOWN'')"
    by (simp add: get_eq field_def example_heaps)
  have tr: "truthy (String ''UNKNOWN'')"
    by simp
  have out: "\<not> is_status (String ''UNKNOWN'')"
    by (simp add: is_status_def status_enum_def)
  from invalid_status_accepted [OF wf len st tr out] wf len st tr out show ?thesis
    by blast
qed

subsection \<open>C2: a falsy scalar in the update\<close>

text \<open>
  Claim C2: every scalar field present in the update, a falsy value such as
  \<open>amount: 0\<close> included, is written to the result. The code tests \<open>if (updates.amount)\<close>,
  the truthiness of the value: on the order of the tests, whose amount is 100, the update
  \<open>{amount: 0}\<close> is a well-typed \<open>Partial<Order>\<close>, and the result keeps the amount 100.
\<close>

theorem zero_amount_skipped:
  "Entity heap_zero 0 \<and> Update heap_zero 2 \<and>
   get heap_zero 2 ''amount'' = Inr (Number (Finite 0)) \<and>
   safeUpdateOrder heap_zero 0 2 =
     Inr (3, heap_zero @
       [\<lparr>proto = Order_prototype, props =
          [(''id'', String ''o_123''), (''amount'', Number (Finite 100)),
           (''status'', String ''PENDING''), (''metadata'', Ref 1)]\<rparr>])"
  by (simp add: run_defs example_heaps Entity_def Update_def optional_def is_string_def
      is_number_def is_status_def is_record_def status_enum_def)

subsection \<open>C3: the metadata of the result\<close>

text \<open>
  Claim C3: when the update has a \<open>metadata\<close> object, the result's \<open>metadata\<close> is a
  mapping with the keys of both \<open>e.metadata\<close> and \<open>u.metadata\<close>, and the update's value
  on every key the update has (\<open>++\<close> is the union of two maps in which the right one wins).
  When the update has no \<open>metadata\<close>, the result's \<open>metadata\<close> is \<open>e.metadata\<close>, the same
  object with the same contents.
\<close>

theorem metadata_merge:
  assumes "wf_heap h" and "e < length h" and "u < length h"
    and "get h e ''metadata'' = Inr (Ref me)"
  shows "\<exists>r h'. safeUpdateOrder h e u = Inr (r, h') \<and>
           (\<forall>mu. get h u ''metadata'' = Inr (Ref mu) \<longrightarrow>
              (\<exists>m. get h' r ''metadata'' = Inr (Ref m) \<and> m < length h' \<and>
                 map_of (props (h' ! m)) = map_of (props (h ! me)) ++ map_of (props (h ! mu)))) \<and>
           (get h u ''metadata'' = Inr Undefined \<longrightarrow>
              get h' r ''metadata'' = Inr (Ref me) \<and> h' ! me = h ! me)"
proof -
  let ?eo = "h ! e" and ?uo = "h ! u"
  from assms(2,4) have eo: "field ?eo ''metadata'' = Ref me"
    by (simp add: get_eq)
  have me: "me < length h"
    using wf_field [OF assms(1,2), of "''metadata''"] eo by (simp add: wf_value_def)
  have pe: "own_enumerable h (field ?eo ''metadata'') = Inr (props (h ! me))"
    using me eo by (simp add: own_enumerable_Ref)
  have de: "distinct (map fst (props ?eo))"
    by (rule wf_distinct [OF assms(1,2)])
  obtain pu where pu: "own_enumerable h (field ?uo ''metadata'') = Inr pu"
    using own_enumerable_wf [OF wf_field [OF assms(1,3)]] by blast
  let ?h' = "h @ updated_objects Order_prototype (length h) ?eo ?uo (props (h ! me)) pu"
  have run: "safeUpdateOrder h e u = Inr (length h, ?h')"
    by (rule safeUpdateOrder_closed [OF assms(1-3) pe pu])
  have present: "\<exists>m. get ?h' (length h) ''metadata'' = Inr (Ref m) \<and> m < length ?h' \<and>
      map_of (props (?h' ! m)) = map_of (props (h ! me)) ++ map_of (props (h ! mu))"
    if "get h u ''metadata'' = Inr (Ref mu)" for mu
  proof -
    from that assms(3) have uo: "field ?uo ''metadata'' = Ref mu"
      by (simp add: get_eq)
    have mu: "mu < length h"
      using wf_field [OF assms(1,3), of "''metadata''"] uo by (simp add: wf_value_def)
    from pu uo mu have pu_eq: "pu = props (h ! mu)"
      by (simp add: own_enumerable_Ref)
    have "get ?h' (length h) ''metadata'' = Inr (Ref (Suc (length h)))"
      using uo de by (simp add: get_updated updated_objects_field)
    moreover have "Suc (length h) < length ?h'"
      using uo by (simp add: updated_objects_length_eq)
    moreover have "map_of (props (?h' ! Suc (length h))) =
        map_of (props (h ! me)) ++ map_of (props (h ! mu))"
      using uo wf_distinct [OF assms(1) me] wf_distinct [OF assms(1) mu]
      by (simp add: updated_objects_merged pu_eq map_of_copy_props)
    ultimately show ?thesis by blast
  qed
  have absent: "get ?h' (length h) ''metadata'' = Inr (Ref me) \<and> ?h' ! me = h ! me"
    if "get h u ''metadata'' = Inr Undefined"
  proof -
    from that assms(3) have uo: "field ?uo ''metadata'' = Undefined"
      by (simp add: get_eq)
    show ?thesis
      using uo de eo me by (simp add: get_updated updated_objects_field nth_append_old)
  qed
  from run present absent show ?thesis by blast
qed

theorem metadata_merge_witness:
  "wf_heap heap_trace \<and> 0 < length heap_trace \<and> 2 < length heap_trace \<and>
   get heap_trace 0 ''metadata'' = Inr (Ref 1) \<and> get heap_trace 2 ''metadata'' = Inr (Ref 3) \<and>
   (\<exists>r h' m. safeUpdateOrder heap_trace 0 2 = Inr (r, h') \<and>
      get h' r ''metadata'' = Inr (Ref m) \<and> m < length h' \<and>
      map_of (props (h' ! m)) =
        [''campaign'' \<mapsto> String ''summer_sale'', ''referrer'' \<mapsto> String ''bing'',
         ''traceId'' \<mapsto> String ''xyz_999'']) \<and>
   wf_heap heap_unknown \<and> 0 < length heap_unknown \<and> 2 < length heap_unknown \<and>
   get heap_unknown 0 ''metadata'' = Inr (Ref 1) \<and>
   get heap_unknown 2 ''metadata'' = Inr Undefined \<and>
   (\<exists>r h'. safeUpdateOrder heap_unknown 0 2 = Inr (r, h') \<and>
      get h' r ''metadata'' = Inr (Ref 1) \<and> h' ! 1 = metadata_o_123)"
proof -
  have wf: "wf_heap heap_trace"
    by (simp add: wf_defs example_heaps)
  have len: "0 < length heap_trace" "2 < length heap_trace"
    by (simp_all add: example_heaps)
  have em: "get heap_trace 0 ''metadata'' = Inr (Ref 1)"
    and um: "get heap_trace 2 ''metadata'' = Inr (Ref 3)"
    by (simp_all add: get_eq field_def example_heaps)
  have union: "map_of (props (heap_trace ! 1)) ++ map_of (props (heap_trace ! 3)) =
      [''campaign'' \<mapsto> String ''summer_sale'', ''referrer'' \<mapsto> String ''bing'',
       ''traceId'' \<mapsto> String ''xyz_999'']"
    by (rule ext) (simp add: example_heaps map_add_def)
  have present: "\<exists>r h' m. safeUpdateOrder heap_trace 0 2 = Inr (r, h') \<and>
      get h' r ''metadata'' = Inr (Ref m) \<and> m < length h' \<and>
      map_of (props (h' ! m)) =
        [''campaign'' \<mapsto> String ''summer_sale'', ''referrer'' \<mapsto> String ''bing'',
         ''traceId'' \<mapsto> String ''xyz_999'']"
  proof -
    from metadata_merge [OF wf len em] um obtain r h' m where
      "safeUpdateOrder heap_trace 0 2 = Inr (r, h')"
      "get h' r ''metadata'' = Inr (Ref m)" "m < length h'"
      "map_of (props (h' ! m)) =
         map_of (props (heap_trace ! 1)) ++ map_of (props (heap_trace ! 3))"
      by blast
    then show ?thesis
      unfolding union by blast
  qed
  have wf': "wf_heap heap_unknown"
    by (simp add: wf_defs example_heaps)
  have len': "0 < length heap_unknown" "2 < length heap_unknown"
    by (simp_all add: example_heaps)
  have em': "get heap_unknown 0 ''metadata'' = Inr (Ref 1)"
    and um': "get heap_unknown 2 ''metadata'' = Inr Undefined"
    by (simp_all add: get_eq field_def example_heaps)
  have old: "heap_unknown ! 1 = metadata_o_123"
    by (simp add: heap_unknown_def)
  have absent: "\<exists>r h'. safeUpdateOrder heap_unknown 0 2 = Inr (r, h') \<and>
      get h' r ''metadata'' = Inr (Ref 1) \<and> h' ! 1 = metadata_o_123"
  proof -
    from metadata_merge [OF wf' len' em'] um' obtain r h' where
      "safeUpdateOrder heap_unknown 0 2 = Inr (r, h')"
      "get h' r ''metadata'' = Inr (Ref 1)" "h' ! 1 = heap_unknown ! 1"
      by blast
    then show ?thesis
      unfolding old by blast
  qed
  from present absent wf len em um wf' len' em' um' show ?thesis
    by blast
qed

subsection \<open>C4: the result is a valid Entity\<close>

text \<open>
  Claim C4: for an Entity and an Update whose supplied fields have their declared types,
  \<open>safeUpdateOrder\<close> returns a valid Entity: an instance of \<open>Order\<close> on which
  \<open>isPaid()\<close> can be called, and \<open>isPaid()\<close> returns true exactly when the status of
  the result is \<open>'PAID'\<close>.
\<close>

theorem result_is_valid_entity:
  assumes "wf_heap h" and "Entity h e" and "Update h u"
  shows "\<exists>r h'. safeUpdateOrder h e u = Inr (r, h') \<and> Entity h' r \<and>
           instanceof_Order h' r = Inr True \<and>
           call_isPaid h' r = Inr (get h' r ''status'' = Inr (String ''PAID''))"
proof -
  let ?eo = "h ! e" and ?uo = "h ! u"
  from assms(2) have e: "e < length h" by (simp add: Entity_def)
  from assms(3) have u: "u < length h" by (simp add: Update_def)
  obtain pe pu where
    run: "safeUpdateOrder h e u =
         Inr (length h, h @ updated_objects Order_prototype (length h) ?eo ?uo pe pu)"
    using safeUpdateOrder_wf [OF assms(1) e u] by blast
  let ?new = "updated_objects Order_prototype (length h) ?eo ?uo pe pu"
  let ?h' = "h @ ?new"
  let ?ob = "?new ! 0"
  have de: "distinct (map fst (props ?eo))"
    by (rule wf_distinct [OF assms(1) e])
  have r: "length h < length ?h'"
    by (simp add: updated_objects_not_Nil)
  have ob: "?h' ! length h = ?ob"
    by (rule nth_append_new)
  have p: "proto ?ob = Order_prototype"
    using assms(2) by (simp add: updated_objects_proto assigned_proto_id Entity_def)
  have no: "map_of (props ?ob) ''__proto__'' = None"
    using de
    by (simp add: updated_objects_def map_of_put_at map_of_updated_props)
  have own: "map_of (props ?ob) ''isPaid'' = None"
    using assms(2) de by (simp add: updated_objects_isPaid Entity_def)
  have id: "is_string (field ?ob ''id'')"
    using assms(2) de by (simp add: updated_objects_field Entity_def)
  have amount: "is_number (field ?ob ''amount'')"
    using assms(2,3) de
    by (auto simp: updated_objects_field Entity_def Update_def dest: optional_truthy)
  have status: "is_status (field ?ob ''status'')"
    using assms(2,3) de
    by (auto simp: updated_objects_field Entity_def Update_def dest: optional_truthy)
  have metadata: "is_record ?h' (field ?ob ''metadata'')"
  proof (cases "truthy (field ?uo ''metadata'')")
    case True
    then show ?thesis
      using de by (simp add: updated_objects_field is_record_def updated_objects_length_eq)
  next
    case False
    then have "field ?ob ''metadata'' = field ?eo ''metadata''"
      using de by (simp add: updated_objects_field)
    with assms(2) show ?thesis
      by (simp add: Entity_def is_record_mono)
  qed
  have entity: "Entity ?h' (length h)"
    unfolding Entity_def ob using r p own no id amount status metadata by simp
  have inst: "instanceof_Order ?h' (length h) = Inr True"
    using r p by (simp add: instanceof_Order_class class_prototype_def ob)
  have call: "call_isPaid ?h' (length h) =
      Inr (get ?h' (length h) ''status'' = Inr (String ''PAID''))"
    using r p own by (simp add: call_isPaid_Order get_eq ob)
  from run entity inst call show ?thesis by blast
qed

theorem result_is_valid_entity_witness:
  "wf_heap heap_paid \<and> Entity heap_paid 0 \<and> Update heap_paid 2 \<and>
   (\<exists>r h'. safeUpdateOrder heap_paid 0 2 = Inr (r, h') \<and> Entity h' r \<and>
      instanceof_Order h' r = Inr True \<and>
      get h' r ''status'' = Inr (String ''PAID'') \<and> call_isPaid h' r = Inr True)"
proof -
  have wf: "wf_heap heap_paid"
    by (simp add: wf_defs example_heaps)
  have ent: "Entity heap_paid 0"
    by (simp add: Entity_def field_def is_string_def is_number_def is_status_def is_record_def
        status_enum_def example_heaps)
  have upd: "Update heap_paid 2"
    by (simp add: Update_def optional_def field_def is_string_def is_number_def is_status_def
        is_record_def status_enum_def example_heaps)
  have run: "safeUpdateOrder heap_paid 0 2 =
      Inr (4, heap_paid @
        [\<lparr>proto = Order_prototype, props =
           [(''id'', String ''o_123''), (''amount'', Number (Finite 100)),
            (''status'', String ''PAID''), (''metadata'', Ref 5)]\<rparr>,
         plain [(''campaign'', String ''summer_sale''), (''referrer'', String ''google''),
                (''traceId'', String ''safe_1'')]])"
    by (simp add: run_defs example_heaps)
  from result_is_valid_entity [OF wf ent upd] obtain r h' where
    res: "safeUpdateOrder heap_paid 0 2 = Inr (r, h')" "Entity h' r"
      "instanceof_Order h' r = Inr True"
      "call_isPaid h' r = Inr (get h' r ''status'' = Inr (String ''PAID''))"
    by blast
  from res(1) run have "get h' r ''status'' = Inr (String ''PAID'')"
    by (auto simp: get_def deref_def andThen_def field_def heap_paid_def)
  with res wf ent upd show ?thesis
    by auto
qed

subsection \<open>C5: a scalar field that the update omits\<close>

text \<open>
  Claim C5: a top-level scalar field (\<open>id\<close>, \<open>amount\<close>, \<open>status\<close>) that the update
  omits has, on the result, the value it has on \<open>e\<close>.
\<close>

theorem omitted_scalar_kept:
  assumes "wf_heap h" and "e < length h" and "u < length h"
    and "k \<in> {''id'', ''amount'', ''status''}" and "get h u k = Inr Undefined"
  shows "\<exists>r h'. safeUpdateOrder h e u = Inr (r, h') \<and> get h' r k = get h e k"
proof -
  obtain pe pu where
    *: "safeUpdateOrder h e u =
         Inr (length h, h @ updated_objects Order_prototype (length h) (h ! e) (h ! u) pe pu)"
    using safeUpdateOrder_wf [OF assms(1-3)] by blast
  from assms(3,5) have "field (h ! u) k = Undefined"
    by (simp add: get_eq)
  then have "get (h @ updated_objects Order_prototype (length h) (h ! e) (h ! u) pe pu) (length h) k
          = get h e k"
    using assms(2,4) wf_distinct [OF assms(1,2)]
    by (auto simp: get_eq get_updated updated_objects_field)
  with * show ?thesis by simp
qed

theorem omitted_scalar_kept_witness:
  "wf_heap heap_paid \<and> 0 < length heap_paid \<and> 2 < length heap_paid \<and>
   ''amount'' \<in> {''id'', ''amount'', ''status''} \<and>
   get heap_paid 2 ''amount'' = Inr Undefined \<and>
   (\<exists>r h'. safeUpdateOrder heap_paid 0 2 = Inr (r, h') \<and>
      get h' r ''amount'' = Inr (Number (Finite 100)))"
proof -
  have wf: "wf_heap heap_paid"
    by (simp add: wf_defs example_heaps)
  have len: "0 < length heap_paid" "2 < length heap_paid"
    by (simp_all add: example_heaps)
  have k: "''amount'' \<in> {''id'', ''amount'', ''status''}"
    by simp
  have om: "get heap_paid 2 ''amount'' = Inr Undefined"
    by (simp add: get_eq field_def example_heaps)
  have old: "get heap_paid 0 ''amount'' = Inr (Number (Finite 100))"
    by (simp add: get_eq field_def example_heaps)
  from omitted_scalar_kept [OF wf len k om] obtain r h' where
    "safeUpdateOrder heap_paid 0 2 = Inr (r, h')"
    "get h' r ''amount'' = get heap_paid 0 ''amount''"
    by blast
  with wf len k om show ?thesis
    unfolding old by blast
qed

subsection \<open>C6: the original is not mutated\<close>

text \<open>
  Claim C6: \<open>safeUpdateOrder\<close> changes no field of \<open>e\<close>. The heap after the call holds
  every object that existed before it, \<open>e\<close> and the object \<open>e.metadata\<close> among them, at
  the same address and with the same prototype and properties.
\<close>

theorem original_not_mutated:
  assumes "wf_heap h" and "e < length h" and "u < length h"
  shows "\<exists>r h'. safeUpdateOrder h e u = Inr (r, h') \<and> length h \<le> length h' \<and>
           (\<forall>a<length h. h' ! a = h ! a)"
proof -
  obtain pe pu where
    *: "safeUpdateOrder h e u =
         Inr (length h, h @ updated_objects Order_prototype (length h) (h ! e) (h ! u) pe pu)"
    using safeUpdateOrder_wf [OF assms] by blast
  then show ?thesis by (simp add: nth_append_old)
qed

theorem original_not_mutated_witness:
  "wf_heap heap_paid \<and> 0 < length heap_paid \<and> 2 < length heap_paid \<and>
   (\<exists>r h'. safeUpdateOrder heap_paid 0 2 = Inr (r, h') \<and> length heap_paid \<le> length h' \<and>
      (\<forall>a<length heap_paid. h' ! a = heap_paid ! a))"
proof -
  have wf: "wf_heap heap_paid"
    by (simp add: wf_defs example_heaps)
  have len: "0 < length heap_paid" "2 < length heap_paid"
    by (simp_all add: example_heaps)
  from original_not_mutated [OF wf len] wf len show ?thesis
    by blast
qed

subsection \<open>C7: the empty update\<close>

text \<open>
  Claim C7: with the empty update \<open>{}\<close>, \<open>safeUpdateOrder\<close> raises no error and returns
  a new instance, at an address that no object had before the call, on which every own
  property (\<open>id\<close>, \<open>amount\<close>, \<open>status\<close>, \<open>metadata\<close> and any other) reads as it does on
  \<open>e\<close>. The one name set apart is \<open>__proto__\<close>, which the constructor's \<open>Object.assign\<close>
  hands to a setter instead of copying it.
\<close>

theorem empty_update_copies:
  assumes "wf_heap h" and "e < length h" and "u < length h" and "props (h ! u) = []"
  shows "\<exists>r h'. safeUpdateOrder h e u = Inr (r, h') \<and> r \<noteq> e \<and> length h \<le> r \<and>
           (\<forall>k. k \<noteq> ''__proto__'' \<longrightarrow> get h' r k = get h e k)"
proof -
  obtain pe pu where
    *: "safeUpdateOrder h e u =
         Inr (length h, h @ updated_objects Order_prototype (length h) (h ! e) (h ! u) pe pu)"
    using safeUpdateOrder_wf [OF assms(1-3)] by blast
  have "field (h ! u) k = Undefined" for k
    using assms(4) by (simp add: field_def)
  then have "get (h @ updated_objects Order_prototype (length h) (h ! e) (h ! u) pe pu) (length h) k
          = get h e k" if "k \<noteq> ''__proto__''" for k
    using that assms(2) wf_distinct [OF assms(1,2)]
    by (simp add: get_eq get_updated updated_objects_field)
  with * assms(2) show ?thesis by simp
qed

theorem empty_update_copies_witness:
  "wf_heap heap_empty \<and> 0 < length heap_empty \<and> 2 < length heap_empty \<and>
   props (heap_empty ! 2) = [] \<and>
   (\<exists>r h'. safeUpdateOrder heap_empty 0 2 = Inr (r, h') \<and> r \<noteq> 0 \<and> length heap_empty \<le> r \<and>
      (\<forall>k. k \<noteq> ''__proto__'' \<longrightarrow> get h' r k = get heap_empty 0 k))"
proof -
  have wf: "wf_heap heap_empty"
    by (simp add: wf_defs example_heaps)
  have len: "0 < length heap_empty" "2 < length heap_empty"
    by (simp_all add: example_heaps)
  have emp: "props (heap_empty ! 2) = []"
    by (simp add: example_heaps)
  from empty_update_copies [OF wf len emp] wf len emp show ?thesis
    by blast
qed

subsection \<open>C8: the id is never rewritten\<close>

text \<open>
  Claim C8: whatever the update holds, an \<open>id\<close> included, the \<open>id\<close> of the result of
  \<open>safeUpdateOrder\<close> is the \<open>id\<close> of \<open>e\<close>.
\<close>

theorem id_never_rewritten:
  assumes "wf_heap h" and "e < length h" and "u < length h"
  shows "\<exists>r h'. safeUpdateOrder h e u = Inr (r, h') \<and> get h' r ''id'' = get h e ''id''"
proof -
  obtain pe pu where
    *: "safeUpdateOrder h e u =
         Inr (length h, h @ updated_objects Order_prototype (length h) (h ! e) (h ! u) pe pu)"
    using safeUpdateOrder_wf [OF assms] by blast
  have "get (h @ updated_objects Order_prototype (length h) (h ! e) (h ! u) pe pu) (length h) ''id''
        = get h e ''id''"
    using assms(2) wf_distinct [OF assms(1,2)]
    by (simp add: get_eq get_updated updated_objects_field)
  with * show ?thesis by blast
qed

theorem id_never_rewritten_witness:
  "wf_heap heap_id \<and> 0 < length heap_id \<and> 2 < length heap_id \<and>
   get heap_id 2 ''id'' = Inr (String ''o_999'') \<and>
   (\<exists>r h'. safeUpdateOrder heap_id 0 2 = Inr (r, h') \<and> get h' r ''id'' = Inr (String ''o_123''))"
proof -
  have wf: "wf_heap heap_id"
    by (simp add: wf_defs example_heaps)
  have len: "0 < length heap_id" "2 < length heap_id"
    by (simp_all add: example_heaps)
  have "get heap_id 0 ''id'' = Inr (String ''o_123'')" "get heap_id 2 ''id'' = Inr (String ''o_999'')"
    by (simp_all add: get_eq field_def example_heaps)
  with id_never_rewritten [OF wf len] wf len show ?thesis
    by simp
qed

subsection \<open>C9: the risky update\<close>

text \<open>
  Claim C9: when the update has a \<open>metadata\<close> object, the \<open>metadata\<close> of the result of
  \<open>riskyUpdateOrder\<close> is that very object, unchanged, so it has the update's keys and
  values and none that only \<open>e.metadata\<close> had; and the result is not an instance of
  \<open>Order\<close>: calling \<open>isPaid()\<close> on it throws \<open>TypeError\<close>.
\<close>

theorem risky_update_replaces_metadata:
  assumes "wf_heap h" and "e < length h" and "u < length h"
    and "get h u ''metadata'' = Inr (Ref mu)"
  shows "\<exists>r h'. riskyUpdateOrder h e u = Inr (r, h') \<and>
           get h' r ''metadata'' = Inr (Ref mu) \<and> mu < length h \<and> h' ! mu = h ! mu \<and>
           instanceof_Order h' r = Inr False \<and> call_isPaid h' r = Inl TypeError"
proof -
  let ?ob = "\<lparr>proto = Object_prototype,
              props = copy_props (props (h ! u)) (copy_props (props (h ! e)) [])\<rparr>"
  have run: "riskyUpdateOrder h e u = Inr (length h, h @ [?ob])"
    by (rule riskyUpdateOrder_closed [OF assms(2,3)])
  from assms(3,4) have uo: "field (h ! u) ''metadata'' = Ref mu"
    by (simp add: get_eq)
  have mu: "mu < length h"
    using wf_field [OF assms(1,3), of "''metadata''"] uo by (simp add: wf_value_def)
  have "map_of (props (h ! u)) ''metadata'' = Some (Ref mu)"
    using uo by (simp add: field_def split: option.splits)
  then have "map_of (props ?ob) ''metadata'' = Some (Ref mu)"
    by (simp add: map_of_copy_props [OF wf_distinct [OF assms(1,3)]] map_add_find_right)
  then have "get (h @ [?ob]) (length h) ''metadata'' = Inr (Ref mu)"
    by (simp add: get_new field_def)
  moreover have "instanceof_Order (h @ [?ob]) (length h) = Inr False"
    by (simp add: instanceof_Order_class class_prototype_def)
  moreover have "call_isPaid (h @ [?ob]) (length h) = Inl TypeError"
    by (simp add: call_isPaid_plain)
  ultimately show ?thesis
    using run mu by (simp add: nth_append_old)
qed

theorem risky_update_replaces_metadata_witness:
  "wf_heap heap_trace \<and> 0 < length heap_trace \<and> 2 < length heap_trace \<and>
   get heap_trace 2 ''metadata'' = Inr (Ref 3) \<and>
   (\<exists>r h'. riskyUpdateOrder heap_trace 0 2 = Inr (r, h') \<and>
      get h' r ''metadata'' = Inr (Ref 3) \<and> 3 < length heap_trace \<and>
      h' ! 3 = plain [(''referrer'', String ''bing''), (''traceId'', String ''xyz_999'')] \<and>
      instanceof_Order h' r = Inr False \<and> call_isPaid h' r = Inl TypeError)"
proof -
  have wf: "wf_heap heap_trace"
    by (simp add: wf_defs example_heaps)
  have len: "0 < length heap_trace" "2 < length heap_trace"
    by (simp_all add: example_heaps)
  have um: "get heap_trace 2 ''metadata'' = Inr (Ref 3)"
    by (simp add: get_eq field_def example_heaps)
  have old: "heap_trace ! 3 = plain [(''referrer'', String ''bing''), (''traceId'', String ''xyz_999'')]"
    by (simp add: heap_trace_def)
  from risky_update_replaces_metadata [OF wf len um] obtain r h' where
    "riskyUpdateOrder heap_trace 0 2 = Inr (r, h')"
    "get h' r ''metadata'' = Inr (Ref 3)" "3 < length heap_trace" "h' ! 3 = heap_trace ! 3"
    "instanceof_Order h' r = Inr False" "call_isPaid h' r = Inl TypeError"
    by blast
  with wf len um show ?thesis
    unfolding old by blast
qed

subsection \<open>C10: the two safe updates agree\<close>

text \<open>
  Claim C10: on the same heap, original and update, \<open>safeUpdateOrder\<close> and
  \<open>safeUpdateConfig\<close> return the same address, and heaps in which every object has the
  same own properties; every field of the two results (\<open>id\<close>, \<open>amount\<close>, \<open>status\<close>,
  \<open>metadata\<close> and any other own property) reads the same. The two results differ in
  their prototype alone, each being an instance of its own file's class.
\<close>

theorem safe_updates_agree:
  assumes "wf_heap h" and "e < length h" and "u < length h"
  shows "\<exists>r h1 h2. safeUpdateOrder h e u = Inr (r, h1) \<and> safeUpdateConfig h e u = Inr (r, h2) \<and>
           map props h1 = map props h2 \<and> (\<forall>k. get h1 r k = get h2 r k)"
proof -
  obtain pe where pe: "own_enumerable h (field (h ! e) ''metadata'') = Inr pe"
    using own_enumerable_wf [OF wf_field [OF assms(1,2)]] by blast
  obtain pu where pu: "own_enumerable h (field (h ! u) ''metadata'') = Inr pu"
    using own_enumerable_wf [OF wf_field [OF assms(1,3)]] by blast
  let ?h1 = "h @ updated_objects Order_prototype (length h) (h ! e) (h ! u) pe pu"
  let ?h2 = "h @ updated_objects Order_prototype_part_001 (length h) (h ! e) (h ! u) pe pu"
  have 1: "safeUpdateOrder h e u = Inr (length h, ?h1)"
    by (rule safeUpdateOrder_closed [OF assms pe pu])
  have 2: "safeUpdateConfig h e u = Inr (length h, ?h2)"
    by (rule safeUpdateConfig_closed [OF assms pe pu])
  have 3: "map props ?h1 = map props ?h2"
    using updated_objects_props [of Order_prototype _ _ _ _ _ Order_prototype_part_001]
    by simp
  have 4: "get ?h1 (length h) k = get ?h2 (length h) k" for k
    using wf_distinct [OF assms(1,2)] by (simp add: get_updated updated_objects_field)
  from 1 2 3 4 show ?thesis by blast
qed

theorem safe_updates_agree_witness:
  "wf_heap heap_paid \<and> 0 < length heap_paid \<and> 2 < length heap_paid \<and>
   (\<exists>r h1 h2. safeUpdateOrder heap_paid 0 2 = Inr (r, h1) \<and>
      safeUpdateConfig heap_paid 0 2 = Inr (r, h2) \<and>
      map props h1 = map props h2 \<and> (\<forall>k. get h1 r k = get h2 r k))"
proof -
  have wf: "wf_heap heap_paid"
    by (simp add: wf_defs example_heaps)
  have len: "0 < length heap_paid" "2 < length heap_paid"
    by (simp_all add: example_heaps)
  from safe_updates_agree [OF wf len] wf len show ?thesis
    by blast
qed

end
